theory Spec2Isabelle
  imports Main
begin

section \<open>JavaScript values\<close>

text \<open>
  The values the validators inspect. The library never mutates a value, so values are
  plain trees. The fragment covered:
  \<^item> the primitives; a number is an integer-valued number of magnitude below \<open>10^21\<close>
    (where the platform prints it as a plain decimal), which covers every array index;
  \<^item> a symbol, given by its description; a function, given by its \<open>name\<close>;
  \<^item> an array (dense), and a plain object given by its own enumerable string-keyed
    properties in the platform's enumeration order (keys distinct);
  \<^item> three kinds of objects that only \<open>formatValue\<close> tells apart: a \<open>RegExp\<close>, given by
    the text of its \<open>toString()\<close>, a valid \<open>Date\<close>, given by the text of its
    \<open>toISOString()\<close>, and any other object without own enumerable properties, given by
    the tag that \<open>Object.prototype.toString\<close> prints for it. Each of the three also
    carries the table of what a property lookup on it finds, own or inherited; a key
    that is not in the table reads as \<open>undefined\<close>.
  A plain object has the standard \<open>Object.prototype\<close> as its prototype, and its
  properties are data properties that can be read and written.
\<close>

datatype jsval =
    Undefined
  | Null
  | Bool bool
  | Num int
  | Str string
  | BigInt int
  | Symbol string
  | Func string
  | RegExp string "(string \<times> jsval) list"
  | Date string "(string \<times> jsval) list"
  | Arr "jsval list"
  | Obj "(string \<times> jsval) list"
  | Other string "(string \<times> jsval) list"

datatype jstype =
  TUndefined | TObject | TBoolean | TNumber | TString | TBigint | TSymbol | TFunction

fun typeof :: "jsval \<Rightarrow> jstype" where
  "typeof Undefined = TUndefined"
| "typeof Null = TObject"
| "typeof (Bool b) = TBoolean"
| "typeof (Num n) = TNumber"
| "typeof (Str s) = TString"
| "typeof (BigInt n) = TBigint"
| "typeof (Symbol d) = TSymbol"
| "typeof (Func name) = TFunction"
| "typeof (RegExp t tbl) = TObject"
| "typeof (Date t tbl) = TObject"
| "typeof (Arr xs) = TObject"
| "typeof (Obj kvs) = TObject"
| "typeof (Other tag tbl) = TObject"

fun isArray :: "jsval \<Rightarrow> bool" where
  "isArray (Arr xs) = True"
| "isArray v = False"

text \<open>\<open>value == null\<close>: loose equality with null holds for null and undefined only.\<close>

fun loose_null :: "jsval \<Rightarrow> bool" where
  "loose_null Null = True"
| "loose_null Undefined = True"
| "loose_null v = False"

text \<open>
  \<open>Object.prototype\<close>, which every plain object inherits from: its \<open>constructor\<close> is the
  function \<open>Object\<close>, its ten methods are functions named as their keys, and its accessor
  \<open>__proto__\<close> reads the prototype of the object it is read on. As a value it is an
  object without own enumerable properties whose own prototype is null.
\<close>

definition Object_prototype_methods :: "string list" where
  "Object_prototype_methods =
     [''__defineGetter__'', ''__defineSetter__'', ''hasOwnProperty'', ''__lookupGetter__'',
      ''__lookupSetter__'', ''isPrototypeOf'', ''propertyIsEnumerable'', ''toString'',
      ''valueOf'', ''toLocaleString'']"

definition Object_prototype :: jsval where
  "Object_prototype =
     Other ''[object Object]''
       ((''constructor'', Func ''Object'')
        # map (\<lambda>m. (m, Func m)) Object_prototype_methods @ [(''__proto__'', Null)])"

definition inherited_from_Object :: "string \<Rightarrow> jsval" where
  "inherited_from_Object k =
     (if k = ''constructor'' then Func ''Object''
      else if k \<in> set Object_prototype_methods then Func k
      else if k = ''__proto__'' then Object_prototype
      else Undefined)"

definition table_get :: "(string \<times> jsval) list \<Rightarrow> string \<Rightarrow> jsval" where
  "table_get tbl k = (case map_of tbl k of Some v \<Rightarrow> v | None \<Rightarrow> Undefined)"

text \<open>
  \<open>value[key]\<close> for a string key, as \<open>object\<close> evaluates it: on a value that is an object,
  not null and not an array. A plain object is searched for an own property, then
  \<open>Object.prototype\<close>. (The last equation is never reached from \<open>object\<close>.)
\<close>

fun js_get :: "jsval \<Rightarrow> string \<Rightarrow> jsval" where
  "js_get (Obj kvs) k =
     (case map_of kvs k of Some v \<Rightarrow> v | None \<Rightarrow> inherited_from_Object k)"
| "js_get (RegExp t tbl) k = table_get tbl k"
| "js_get (Date t tbl) k = table_get tbl k"
| "js_get (Other tag tbl) k = table_get tbl k"
| "js_get v k = Undefined"

text \<open>
  \<open>result[key] = v\<close> on the own properties of the result under construction, a fresh
  \<open>{}\<close>. The key \<open>__proto__\<close> reaches the setter inherited from \<open>Object.prototype\<close> and
  creates no own property: a primitive \<open>v\<close> is ignored; an object or null replaces the
  prototype of the result, which is then no longer a plain object, and of such a result
  the list shows the own properties only. Any other key is written as an own property.
\<close>

fun own_put :: "(string \<times> jsval) list \<Rightarrow> string \<Rightarrow> jsval \<Rightarrow> (string \<times> jsval) list" where
  "own_put [] k v = [(k, v)]"
| "own_put ((k', w) # rest) k v =
     (if k' = k then (k', v) # rest else (k', w) # own_put rest k v)"

fun obj_set :: "(string \<times> jsval) list \<Rightarrow> string \<Rightarrow> jsval \<Rightarrow> (string \<times> jsval) list" where
  "obj_set res k v = (if k = ''__proto__'' then res else own_put res k v)"

declare obj_set.simps [simp del]

subsection \<open>Platform string conversions\<close>

definition digit_char :: "nat \<Rightarrow> char" where
  "digit_char d = ''0123456789'' ! d"

function string_of_nat :: "nat \<Rightarrow> string" where
  "string_of_nat n =
     (if n < 10 then [digit_char n] else string_of_nat (n div 10) @ [digit_char (n mod 10)])"
  by pat_completeness auto
termination
  by (relation "measure id") auto

declare string_of_nat.simps [simp del]

definition string_of_int :: "int \<Rightarrow> string" where
  "string_of_int i = (if i < 0 then ''-'' @ string_of_nat (nat (- i)) else string_of_nat (nat i))"

definition hex_char :: "nat \<Rightarrow> char" where
  "hex_char d = ''0123456789abcdef'' ! d"

text \<open>
  \<open>JSON.stringify\<close>'s string quoting: the quote and the backslash are escaped, the five
  named control characters have short escapes, every other character below \<open>0x20\<close> is
  written \<open>\u00XX\<close>.
\<close>

definition json_escape :: "char \<Rightarrow> string" where
  "json_escape c =
     (if c = CHR 0x22 then [CHR 0x5C, CHR 0x22]
      else if c = CHR 0x5C then [CHR 0x5C, CHR 0x5C]
      else if c = CHR 0x08 then [CHR 0x5C, CHR ''b'']
      else if c = CHR 0x09 then [CHR 0x5C, CHR ''t'']
      else if c = CHR 0x0A then [CHR 0x5C, CHR ''n'']
      else if c = CHR 0x0C then [CHR 0x5C, CHR ''f'']
      else if c = CHR 0x0D then [CHR 0x5C, CHR ''r'']
      else if (of_char c :: nat) < 32
        then [CHR 0x5C, CHR ''u'', CHR ''0'', CHR ''0'',
              hex_char ((of_char c :: nat) div 16), hex_char ((of_char c :: nat) mod 16)]
      else [c])"

definition json_quote :: "string \<Rightarrow> string" where
  "json_quote s = [CHR 0x22] @ concat (map json_escape s) @ [CHR 0x22]"

fun join_comma :: "string list \<Rightarrow> string" where
  "join_comma [] = []"
| "join_comma [x] = x"
| "join_comma (x # y # rest) = x @ '','' @ join_comma (y # rest)"

text \<open>
  \<open>JSON.stringify\<close> on the value fragment. A member serialises to a text, to nothing
  (undefined, a symbol or a function: left out of an object, \<open>null\<close> in an array), or the
  serialisation throws a \<open>TypeError\<close> (a BigInt anywhere inside).
\<close>

datatype json_out = JThrow | JOmit | JText string

fun serialize :: "jsval \<Rightarrow> json_out"
  and serialize_items :: "jsval list \<Rightarrow> string list option"
  and serialize_members :: "(string \<times> jsval) list \<Rightarrow> string list option"
where
  "serialize Undefined = JOmit"
| "serialize Null = JText ''null''"
| "serialize (Bool b) = JText (if b then ''true'' else ''false'')"
| "serialize (Num n) = JText (string_of_int n)"
| "serialize (Str s) = JText (json_quote s)"
| "serialize (BigInt n) = JThrow"
| "serialize (Symbol d) = JOmit"
| "serialize (Func name) = JOmit"
| "serialize (RegExp t tbl) = JText ''{}''"
| "serialize (Date t tbl) = JText (json_quote t)"
| "serialize (Arr xs) =
     (case serialize_items xs of
        None \<Rightarrow> JThrow
      | Some parts \<Rightarrow> JText (''['' @ join_comma parts @ '']''))"
| "serialize (Obj kvs) =
     (case serialize_members kvs of
        None \<Rightarrow> JThrow
      | Some parts \<Rightarrow> JText (''{'' @ join_comma parts @ ''}''))"
| "serialize (Other tag tbl) = JText ''{}''"
| "serialize_items [] = Some []"
| "serialize_items (x # xs) =
     (case serialize x of
        JThrow \<Rightarrow> None
      | JOmit \<Rightarrow> map_option (\<lambda>parts. ''null'' # parts) (serialize_items xs)
      | JText t \<Rightarrow> map_option (\<lambda>parts. t # parts) (serialize_items xs))"
| "serialize_members [] = Some []"
| "serialize_members (kv # kvs) =
     (case serialize (snd kv) of
        JThrow \<Rightarrow> None
      | JOmit \<Rightarrow> serialize_members kvs
      | JText t \<Rightarrow>
          map_option (\<lambda>parts. (json_quote (fst kv) @ '':'' @ t) # parts) (serialize_members kvs))"

section \<open>Errors\<close>

text \<open>
  \<open>ValidationError\<close>: an \<open>Error\<close> object with its message and the optional enrichment
  fields; \<open>None\<close> is an absent field.
\<close>

datatype jskey = KNull | KNum int | KStr string

record ValidationError =
  message :: string
  expected :: "string option"
  actual :: "jsval option"
  err_path :: "string option"
  err_key :: "jskey option"
  err_parent :: "jsval option"
  err_root :: "jsval option"

text \<open>\<open>new Error(message)\<close>: no enrichment field is present.\<close>

definition new_Error :: "string \<Rightarrow> ValidationError" where
  "new_Error m =
     \<lparr>message = m, expected = None, actual = None, err_path = None, err_key = None,
      err_parent = None, err_root = None\<rparr>"

text \<open>
  What a \<open>throw\<close> carries: an \<open>Error\<close> object, or any other value. Of a value that is
  not an \<open>Error\<close> the program reads only \<open>String(err)\<close>, so it is given by that text.
\<close>

datatype thrown = ErrObj ValidationError | NonErr string

type_synonym 'a outcome = "thrown + 'a"

text \<open>The \<open>TypeError\<close> of \<open>JSON.stringify\<close> on a BigInt.\<close>

definition bigint_TypeError :: thrown where
  "bigint_TypeError = ErrObj (new_Error ''Do not know how to serialize a BigInt'')"

definition JSON_stringify :: "jsval \<Rightarrow> string outcome" where
  "JSON_stringify v =
     (case serialize v of
        JThrow \<Rightarrow> Inl bigint_TypeError
      | JOmit \<Rightarrow> Inr ''undefined''
      | JText t \<Rightarrow> Inr t)"

section \<open>Context\<close>

text \<open>
  \<open>Ctx\<close>. The field \<open>cvalue\<close> is the source's \<open>value\<close>; \<open>abortPipe\<close> is
  \<open>__abortPipe\<close>, \<open>None\<close> when the property is absent. A context is a mutable object
  handed to every validator: a validator returns the context as it left it.
\<close>

record Ctx =
  path :: string
  key :: jskey
  parent :: jsval
  root :: jsval
  cvalue :: jsval
  abortPipe :: "bool option"

text \<open>
  A template literal's rendering of a key. \<open>makeCtx\<close> is called with three arguments;
  the optional fourth parameter of its TypeScript signature is never read.
\<close>

fun key_text :: "jskey \<Rightarrow> string" where
  "key_text KNull = ''null''"
| "key_text (KNum n) = string_of_int n"
| "key_text (KStr s) = s"

fun makeCtx :: "Ctx option \<Rightarrow> jskey \<Rightarrow> jsval \<Rightarrow> Ctx" where
  "makeCtx None k v =
     \<lparr>path = ''$'', key = k, parent = Null, root = v, cvalue = v, abortPipe = None\<rparr>"
| "makeCtx (Some parentCtx) (KNum n) v =
     \<lparr>path = path parentCtx @ ''['' @ key_text (KNum n) @ '']'', key = KNum n,
      parent = cvalue parentCtx, root = root parentCtx, cvalue = v, abortPipe = None\<rparr>"
| "makeCtx (Some parentCtx) k v =
     \<lparr>path = path parentCtx @ ''.'' @ key_text k, key = k,
      parent = cvalue parentCtx, root = root parentCtx, cvalue = v, abortPipe = None\<rparr>"

section \<open>formatValue\<close>

fun formatValue :: "jsval \<Rightarrow> string outcome" where
  "formatValue Null = Inr ''null''"
| "formatValue Undefined = Inr ''undefined''"
| "formatValue (Str s) = Inr s"
| "formatValue (Num n) = Inr (string_of_int n)"
| "formatValue (Bool b) = Inr (if b then ''true'' else ''false'')"
| "formatValue (BigInt n) = Inr (string_of_int n)"
| "formatValue (Symbol d) = Inr (''Symbol('' @ d @ '')'')"
| "formatValue (Func name) =
     Inr (''[Function'' @ (if name \<noteq> [] then '': '' @ name else []) @ '']'')"
| "formatValue (RegExp t tbl) = Inr t"
| "formatValue (Date t tbl) = Inr t"
| "formatValue (Arr xs) = JSON_stringify (Arr xs)"
| "formatValue (Obj kvs) = JSON_stringify (Obj kvs)"
| "formatValue (Other tag tbl) = Inr tag"

section \<open>Validator core\<close>

text \<open>
  A validator is a function of the value and the context that returns or throws; the
  context it was handed comes back as the call left it.
\<close>

type_synonym validator = "jsval \<Rightarrow> Ctx \<Rightarrow> jsval outcome \<times> Ctx"

text \<open>\<open>err instanceof Error ? err : new Error(String(err))\<close>\<close>

fun to_Error :: "thrown \<Rightarrow> ValidationError" where
  "to_Error (ErrObj e) = e"
| "to_Error (NonErr s) = new_Error s"

text \<open>The truthiness of \<open>error.expected\<close>: an absent field and the empty string are falsy.\<close>

fun truthy_string :: "string option \<Rightarrow> bool" where
  "truthy_string None = False"
| "truthy_string (Some s) = (s \<noteq> [])"

definition createValidator ::
  "string \<Rightarrow> (jsval \<Rightarrow> Ctx \<Rightarrow> 'args \<Rightarrow> jsval outcome \<times> Ctx) \<Rightarrow> 'args \<Rightarrow> validator" where
  "createValidator name handler args v ctx =
     (case handler v ctx args of
        (Inr out, ctx') \<Rightarrow> (Inr out, ctx')
      | (Inl err, ctx') \<Rightarrow>
          (let error = to_Error err in
           if \<not> truthy_string (expected error)
           then (Inl (ErrObj (error\<lparr>expected := Some name, actual := Some v,
                                     err_path := Some (path ctx'), err_key := Some (key ctx'),
                                     err_parent := Some (parent ctx'),
                                     err_root := Some (root ctx')\<rparr>)), ctx')
           else (Inl (ErrObj error), ctx')))"

text \<open>
  The statement \<open>throw new Error(msg || `(${ctx.path}: ${formatValue(value)}) X name`)\<close>
  that every built-in validator ends its failing branch with (X is the heavy
  multiplication sign U+2716, three bytes in UTF-8). A truthy \<open>msg\<close> is the message;
  otherwise the template is evaluated, and \<open>formatValue\<close> may throw in it.
\<close>

definition cross_mark :: string where
  "cross_mark = [CHR 0xE2, CHR 0x9C, CHR 0x96]"

definition default_message :: "Ctx \<Rightarrow> jsval \<Rightarrow> string \<Rightarrow> string outcome" where
  "default_message ctx v name =
     (case formatValue v of
        Inl t \<Rightarrow> Inl t
      | Inr text \<Rightarrow> Inr (''('' @ path ctx @ '': '' @ text @ '') '' @ cross_mark @ '' '' @ name))"

definition throw_Error :: "string option \<Rightarrow> Ctx \<Rightarrow> jsval \<Rightarrow> string \<Rightarrow> thrown" where
  "throw_Error msg ctx v name =
     (case msg of
        Some m \<Rightarrow>
          (if m \<noteq> [] then ErrObj (new_Error m)
           else (case default_message ctx v name of
                   Inl t \<Rightarrow> t | Inr d \<Rightarrow> ErrObj (new_Error d)))
      | None \<Rightarrow>
          (case default_message ctx v name of
             Inl t \<Rightarrow> t | Inr d \<Rightarrow> ErrObj (new_Error d)))"

section \<open>Composition operators\<close>

text \<open>The truthiness of \<open>ctx.__abortPipe\<close>.\<close>

fun aborted :: "Ctx \<Rightarrow> bool" where
  "aborted ctx = (abortPipe ctx = Some True)"

text \<open>
  The loop of \<open>pipe\<close>: \<open>for (const validator of validators) { if (ctx.__abortPipe) break;
  value = validator(value, ctx) }\<close>. A throw of a step leaves the loop and the handler.
\<close>

fun pipe_loop :: "validator list \<Rightarrow> jsval \<Rightarrow> Ctx \<Rightarrow> jsval outcome \<times> Ctx" where
  "pipe_loop [] v ctx = (Inr v, ctx)"
| "pipe_loop (validator # rest) v ctx =
     (if aborted ctx then (Inr v, ctx)
      else (case validator v ctx of
              (Inl err, ctx') \<Rightarrow> (Inl err, ctx')
            | (Inr v', ctx') \<Rightarrow> pipe_loop rest v' ctx'))"

definition pipe :: "validator list \<Rightarrow> validator" where
  "pipe validators =
     createValidator ''pipe''
       (\<lambda>v ctx args.
          case pipe_loop validators v ctx of
            (Inl err, ctx') \<Rightarrow> (Inl err, ctx')
          | (Inr v', ctx') \<Rightarrow> (Inr v', ctx'\<lparr>abortPipe := None\<rparr>))
       ()"

text \<open>
  \<open>index.js\<close> holds another \<open>pipe\<close>, which has no abort flag and chains all its steps:
  \<open>validators.reduce((v, validator) => validator(v, ctx), value)\<close>.
\<close>

fun reduce_validators :: "validator list \<Rightarrow> jsval \<Rightarrow> Ctx \<Rightarrow> jsval outcome \<times> Ctx" where
  "reduce_validators [] v ctx = (Inr v, ctx)"
| "reduce_validators (validator # rest) v ctx =
     (case validator v ctx of
        (Inl err, ctx') \<Rightarrow> (Inl err, ctx')
      | (Inr v', ctx') \<Rightarrow> reduce_validators rest v' ctx')"

definition transform :: "(jsval \<Rightarrow> Ctx \<Rightarrow> jsval outcome \<times> Ctx) \<Rightarrow> validator" where
  "transform fn = createValidator ''transform'' (\<lambda>v ctx args. fn v ctx) ()"

text \<open>A function value as \<open>check\<close> uses it: its \<open>name\<close> property and its call.\<close>

record jsfunction =
  fn_name :: string
  fn_call :: "jsval \<Rightarrow> Ctx \<Rightarrow> jsval outcome \<times> Ctx"

definition check :: "jsfunction \<Rightarrow> string option \<Rightarrow> validator" where
  "check fn msg =
     (let expected_name = (if fn_name fn \<noteq> [] then fn_name fn else ''check'') in
      createValidator expected_name
        (\<lambda>v ctx args.
           case fn_call fn v ctx of
             (Inl err, ctx') \<Rightarrow> (Inl err, ctx')
           | (Inr r, ctx') \<Rightarrow>
               (if r = Bool True then (Inr v, ctx')
                else (Inl (throw_Error msg ctx' v expected_name), ctx')))
        ())"

section \<open>Entry point\<close>

record ValidateResult =
  valid :: bool
  result :: jsval
  error :: "thrown option"

text \<open>
  The parameter \<open>rootPath\<close> defaults to \<open>'$'\<close> when the caller leaves it out. \<open>validate\<close>
  here is the entry point for a schema that writes to no object it is handed, so that a
  value is its own contents; \<open>validate_ref\<close> below is the same function with objects
  held by reference.
\<close>

definition validate :: "validator \<Rightarrow> jsval \<Rightarrow> string option \<Rightarrow> ValidateResult" where
  "validate schema v rootPath =
     (let ctx = \<lparr>path = (case rootPath of None \<Rightarrow> ''$'' | Some p \<Rightarrow> p), key = KNull,
                 parent = Null, root = v, cvalue = v, abortPipe = None\<rparr>
      in case schema v ctx of
           (Inr r, ctx') \<Rightarrow> \<lparr>valid = True, result = r, error = None\<rparr>
         | (Inl err, ctx') \<Rightarrow> \<lparr>valid = False, result = v, error = Some err\<rparr>)"

subsection \<open>Objects by reference\<close>

text \<open>
  \<open>validate\<close> receives the caller's value and gives that same value back as \<open>result\<close> on
  failure, and as \<open>root\<close> and \<open>value\<close> of the context. When the value is an object, these
  are references to one object, which a step of the schema can change in place. Here a
  value is either held directly (\<open>Val\<close>: every primitive, or an object nothing writes to)
  or is a reference to an object whose present contents the store gives; a schema takes
  the store and returns it as the call left it. Of the thrown thing \<open>validate\<close> reads
  nothing, so its type is left open.
\<close>

type_synonym addr = nat

datatype rval = Val jsval | Ref addr

type_synonym store = "addr \<Rightarrow> jsval"

fun contents :: "store \<Rightarrow> rval \<Rightarrow> jsval" where
  "contents s (Val v) = v"
| "contents s (Ref a) = s a"

record RCtx =
  rpath :: string
  rkey :: jskey
  rparent :: rval
  rroot :: rval
  rvalue :: rval
  rabortPipe :: "bool option"

record 'e RValidateResult =
  rvalid :: bool
  rresult :: rval
  rerror :: "'e option"

type_synonym 'e rschema = "rval \<Rightarrow> RCtx \<Rightarrow> store \<Rightarrow> (('e + rval) \<times> RCtx) \<times> store"

definition validate_ref ::
  "'e rschema \<Rightarrow> rval \<Rightarrow> string option \<Rightarrow> store \<Rightarrow> 'e RValidateResult \<times> store" where
  "validate_ref schema x rootPath s =
     (let ctx = \<lparr>rpath = (case rootPath of None \<Rightarrow> ''$'' | Some p \<Rightarrow> p), rkey = KNull,
                 rparent = Val Null, rroot = x, rvalue = x, rabortPipe = None\<rparr>
      in case schema x ctx s of
           ((Inr r, ctx'), s') \<Rightarrow> (\<lparr>rvalid = True, rresult = r, rerror = None\<rparr>, s')
         | ((Inl err, ctx'), s') \<Rightarrow> (\<lparr>rvalid = False, rresult = x, rerror = Some err\<rparr>, s'))"

text \<open>
  A validator of the kind used everywhere else in this theory, as a schema over the
  store: it reads the present contents of what it is handed and writes nothing.
\<close>

definition deref_ctx :: "store \<Rightarrow> RCtx \<Rightarrow> Ctx" where
  "deref_ctx s c =
     \<lparr>path = rpath c, key = rkey c, parent = contents s (rparent c),
      root = contents s (rroot c), cvalue = contents s (rvalue c), abortPipe = rabortPipe c\<rparr>"

definition ref_ctx :: "Ctx \<Rightarrow> RCtx" where
  "ref_ctx c =
     \<lparr>rpath = path c, rkey = key c, rparent = Val (parent c), rroot = Val (root c),
      rvalue = Val (cvalue c), rabortPipe = abortPipe c\<rparr>"

definition read_only :: "validator \<Rightarrow> thrown rschema" where
  "read_only f x c s =
     (case f (contents s x) (deref_ctx s c) of
        (Inr out, c') \<Rightarrow> ((Inr (Val out), ref_ctx c'), s)
      | (Inl err, c') \<Rightarrow> ((Inl err, ref_ctx c'), s))"

section \<open>Control and leaf validators\<close>

definition required :: "string option \<Rightarrow> validator" where
  "required = createValidator ''required''
     (\<lambda>v ctx msg.
        if loose_null v then (Inl (throw_Error msg ctx v ''required''), ctx)
        else (Inr v, ctx))"

definition optional :: "unit \<Rightarrow> validator" where
  "optional = createValidator ''optional''
     (\<lambda>v ctx args.
        if loose_null v then (Inr v, ctx\<lparr>abortPipe := Some True\<rparr>)
        else (Inr v, ctx))"

definition string :: "string option \<Rightarrow> validator" where
  "string = createValidator ''string''
     (\<lambda>v ctx msg.
        if typeof v \<noteq> TString then (Inl (throw_Error msg ctx v ''string''), ctx)
        else (Inr v, ctx))"

definition number :: "string option \<Rightarrow> validator" where
  "number = createValidator ''number''
     (\<lambda>v ctx msg.
        if typeof v \<noteq> TNumber then (Inl (throw_Error msg ctx v ''number''), ctx)
        else (Inr v, ctx))"

definition bigint :: "string option \<Rightarrow> validator" where
  "bigint = createValidator ''bigint''
     (\<lambda>v ctx msg.
        if typeof v \<noteq> TBigint then (Inl (throw_Error msg ctx v ''bigint''), ctx)
        else (Inr v, ctx))"

definition boolean :: "string option \<Rightarrow> validator" where
  "boolean = createValidator ''boolean''
     (\<lambda>v ctx msg.
        if typeof v \<noteq> TBoolean then (Inl (throw_Error msg ctx v ''boolean''), ctx)
        else (Inr v, ctx))"

definition symbol :: "string option \<Rightarrow> validator" where
  "symbol = createValidator ''symbol''
     (\<lambda>v ctx msg.
        if typeof v \<noteq> TSymbol then (Inl (throw_Error msg ctx v ''symbol''), ctx)
        else (Inr v, ctx))"

section \<open>Structural validators\<close>

text \<open>
  The loop of \<open>object\<close> over the keys of the shape, in their enumeration order. Each
  member validator is handed a fresh child context, which is dropped after the call; a
  throw of a member leaves the loop with no result.
\<close>

fun object_loop ::
  "(string \<times> validator) list \<Rightarrow> jsval \<Rightarrow> Ctx \<Rightarrow> (string \<times> jsval) list
     \<Rightarrow> (string \<times> jsval) list outcome" where
  "object_loop [] v ctx res = Inr res"
| "object_loop ((k, validator) # rest) v ctx res =
     (let childCtx = makeCtx (Some ctx) (KStr k) (js_get v k) in
      case validator (js_get v k) childCtx of
        (Inl err, childCtx') \<Rightarrow> Inl err
      | (Inr out, childCtx') \<Rightarrow> object_loop rest v ctx (obj_set res k out))"

definition object :: "(string \<times> validator) list \<Rightarrow> string option \<Rightarrow> validator" where
  "object shape msg =
     createValidator ''object''
       (\<lambda>v ctx args.
          if typeof v \<noteq> TObject \<or> v = Null \<or> isArray v
          then (Inl (throw_Error msg ctx v ''object''), ctx)
          else (case object_loop shape v ctx [] of
                  Inl err \<Rightarrow> (Inl err, ctx)
                | Inr res \<Rightarrow> (Inr (Obj res), ctx)))
       ()"



section \<open>Vocabulary of the statements\<close>

text \<open>
  A thrown thing carries a failure-kind name when it is an \<open>Error\<close> whose \<open>expected\<close> is
  truthy, which is what the guard \<open>if (!error.expected)\<close> of \<open>createValidator\<close> tests.
\<close>

fun named :: "thrown \<Rightarrow> bool" where
  "named (ErrObj e) = truthy_string (expected e)"
| "named (NonErr s) = False"

text \<open>The six assignments of \<open>createValidator\<close>'s catch block, as one update.\<close>

definition stamp :: "string \<Rightarrow> jsval \<Rightarrow> Ctx \<Rightarrow> ValidationError \<Rightarrow> ValidationError" where
  "stamp name v ctx e = e\<lparr>expected := Some name, actual := Some v,
                                     err_path := Some (path ctx), err_key := Some (key ctx),
                                     err_parent := Some (parent ctx),
                                     err_root := Some (root ctx)\<rparr>"

text \<open>The call that \<open>object\<close> makes for one entry of the shape.\<close>

definition member_call :: "jsval \<Rightarrow> Ctx \<Rightarrow> string \<times> validator \<Rightarrow> jsval outcome \<times> Ctx" where
  "member_call v ctx kf = snd kf (js_get v (fst kf)) (makeCtx (Some ctx) (KStr (fst kf)) (js_get v (fst kf)))"

text \<open>
  A chain of descents from a context: one \<open>makeCtx\<close> per key, each with the value found
  there. \<open>render_key\<close> is the text the specification gives a key in a path: \<open>[k]\<close> for an
  integer, \<open>.k\<close> for a name (and \<open>.null\<close> for the null key, as the template literal
  prints it).
\<close>

fun render_key :: "jskey \<Rightarrow> string" where
  "render_key (KNum n) = ''['' @ string_of_int n @ '']''"
| "render_key (KStr s) = ''.'' @ s"
| "render_key KNull = ''.null''"

fun descend :: "Ctx \<Rightarrow> (jskey \<times> jsval) list \<Rightarrow> Ctx" where
  "descend ctx [] = ctx"
| "descend ctx ((k, v) # rest) = descend (makeCtx (Some ctx) k v) rest"

section \<open>Basic facts\<close>

lemma loose_null_iff: "loose_null v \<longleftrightarrow> v = Null \<or> v = Undefined"
  by (cases v) simp_all

lemma optional_call:
  "optional () v ctx =
     (if loose_null v then (Inr v, ctx\<lparr>abortPipe := Some True\<rparr>) else (Inr v, ctx))"
  by (simp add: optional_def createValidator_def)


lemma expected_new_Error: "expected (new_Error m) = None"
  by (simp add: new_Error_def)

lemma named_to_Error: "named t \<Longrightarrow> ErrObj (to_Error t) = t"
  by (cases t) simp_all

lemma named_iff: "truthy_string (expected (to_Error t)) = named t"
  by (cases t) (simp_all add: new_Error_def)

lemma createValidator_Inl:
  "handler v ctx args = (Inl t, ctx') \<Longrightarrow>
   createValidator name handler args v ctx =
     (Inl (if named t then t else ErrObj (stamp name v ctx' (to_Error t))), ctx')"
  by (simp add: createValidator_def Let_def named_iff named_to_Error stamp_def)

lemma createValidator_Inr:
  "handler v ctx args = (Inr r, ctx') \<Longrightarrow> createValidator name handler args v ctx = (Inr r, ctx')"
  by (simp add: createValidator_def)

lemma createValidator_Inl_elim:
  "createValidator name handler args v ctx = (Inl t, ctx') \<Longrightarrow>
   \<exists>t0. handler v ctx args = (Inl t0, ctx') \<and> t = (if named t0 then t0 else ErrObj (stamp name v ctx' (to_Error t0)))"
  by (cases "handler v ctx args"; cases "fst (handler v ctx args)")
     (auto simp: createValidator_Inl createValidator_Inr)

section \<open>The loop of pipe\<close>

lemma pipe_loop_aborted: "aborted ctx \<Longrightarrow> pipe_loop vs v ctx = (Inr v, ctx)"
  by (cases vs) simp_all

lemma pipe_loop_prefix:
  "k \<le> length vs \<Longrightarrow>
   \<forall>i<k. \<not> aborted (snd (reduce_validators (take i vs) v ctx)) \<Longrightarrow>
   reduce_validators (take k vs) v ctx = (Inr v', ctx') \<Longrightarrow>
   k = length vs \<or> aborted ctx' \<Longrightarrow>
   pipe_loop vs v ctx = (Inr v', ctx')"
proof (induction vs arbitrary: k v ctx)
  case Nil
  then show ?case by simp
next
  case (Cons f fs)
  show ?case
  proof (cases k)
    case 0
    with Cons.prems have "v' = v" "ctx' = ctx" "aborted ctx" by auto
    then show ?thesis using pipe_loop_aborted by blast
  next
    case (Suc j)
    from Cons.prems(2) Suc have na: "\<not> aborted ctx"
      by (metis reduce_validators.simps(1) snd_conv take_0 zero_less_Suc)
    from Cons.prems(3) Suc obtain v1 c1 where
      step: "f v ctx = (Inr v1, c1)" and rest: "reduce_validators (take j fs) v1 c1 = (Inr v', ctx')"
      by (auto split: prod.splits sum.splits)
    have pre: "\<forall>i<j. \<not> aborted (snd (reduce_validators (take i fs) v1 c1))"
    proof (intro allI impI)
      fix i assume "i < j"
      then have "Suc i < k" using Suc by simp
      with Cons.prems(2) have "\<not> aborted (snd (reduce_validators (take (Suc i) (f # fs)) v ctx))"
        by blast
      then show "\<not> aborted (snd (reduce_validators (take i fs) v1 c1))"
        using step by simp
    qed
    have "pipe_loop fs v1 c1 = (Inr v', ctx')"
      using Cons.IH [of j v1 c1] Cons.prems(1,4) Suc pre rest by simp
    then show ?thesis using na step by simp
  qed
qed

lemma pipe_of_loop_Inr:
  "pipe_loop vs v ctx = (Inr v', ctx') \<Longrightarrow> pipe vs v ctx = (Inr v', ctx'\<lparr>abortPipe := None\<rparr>)"
  by (simp add: pipe_def createValidator_def)


lemma pipe_Inr_clears:
  "pipe vs v ctx = (Inr r, ctx') \<Longrightarrow> abortPipe ctx' = None"
  by (auto simp: pipe_def createValidator_def Let_def split: prod.splits sum.splits if_splits)


section \<open>The loops of object and array\<close>





lemma own_put_fresh: "k \<notin> fst ` set res \<Longrightarrow> own_put res k out = res @ [(k, out)]"
  by (induction res k out rule: own_put.induct) auto

lemma obj_set_fresh:
  "k \<noteq> ''__proto__'' \<Longrightarrow> k \<notin> fst ` set res \<Longrightarrow> obj_set res k out = res @ [(k, out)]"
  by (simp add: obj_set.simps own_put_fresh)

lemma object_loop_result:
  "object_loop shape v ctx res = Inr r \<Longrightarrow> distinct (map fst shape) \<Longrightarrow>
   fst ` set res \<inter> fst ` set shape = {} \<Longrightarrow> ''__proto__'' \<notin> fst ` set shape \<Longrightarrow>
   \<exists>outs. r = res @ zip (map fst shape) outs
        \<and> list_all2 (\<lambda>kf out. fst (member_call v ctx kf) = Inr out) shape outs"
proof (induction shape arbitrary: res)
  case Nil
  then show ?case by simp
next
  case (Cons kf rest)
  obtain k f where kf: "kf = (k, f)" by (cases kf)
  from Cons.prems(1) kf obtain out c' where
    call: "f (js_get v k) (makeCtx (Some ctx) (KStr k) (js_get v k)) = (Inr out, c')"
    and loop: "object_loop rest v ctx (obj_set res k out) = Inr r"
    by (auto simp: Let_def split: prod.splits sum.splits)
  from Cons.prems(3) kf have fresh: "k \<notin> fst ` set res" by auto
  from Cons.prems(4) kf have np: "k \<noteq> ''__proto__''" by auto
  from np fresh have set_eq: "obj_set res k out = res @ [(k, out)]" by (rule obj_set_fresh)
  have d: "distinct (map fst rest)" using Cons.prems(2) by simp
  have disj: "fst ` set (res @ [(k, out)]) \<inter> fst ` set rest = {}"
    using Cons.prems(2,3) kf by auto
  have np': "''__proto__'' \<notin> fst ` set rest" using Cons.prems(4) by auto
  from Cons.IH [OF loop [unfolded set_eq] d disj np'] obtain outs where
    r: "r = (res @ [(k, out)]) @ zip (map fst rest) outs"
    and all: "list_all2 (\<lambda>kf out. fst (member_call v ctx kf) = Inr out) rest outs"
    by blast
  have "r = res @ zip (map fst (kf # rest)) (out # outs)" using r kf by simp
  moreover have "list_all2 (\<lambda>kf out. fst (member_call v ctx kf) = Inr out) (kf # rest) (out # outs)"
    using all call kf by (simp add: member_call_def)
  ultimately show ?case by blast
qed

lemma object_loop_cong:
  "\<forall>k\<in>fst ` set shape. js_get w k = js_get v k \<Longrightarrow>
   object_loop shape w ctx res = object_loop shape v ctx res"
proof (induction shape arbitrary: res)
  case Nil
  then show ?case by simp
next
  case (Cons kf rest)
  obtain k f where kf: "kf = (k, f)" by (cases kf)
  from Cons.prems kf have "js_get w k = js_get v k" by simp
  moreover from Cons.prems have "\<forall>k\<in>fst ` set rest. js_get w k = js_get v k" by simp
  ultimately show ?case using Cons.IH kf
    by (simp add: Let_def split: prod.splits sum.splits)
qed

lemma object_Inr_elim:
  assumes "object shape msg v ctx = (Inr r, ctx')"
  shows "typeof v = TObject \<and> v \<noteq> Null \<and> \<not> isArray v \<and> ctx' = ctx
         \<and> (\<exists>res. object_loop shape v ctx [] = Inr res \<and> r = Obj res)"
  using assms
  by (auto simp: object_def createValidator_def Let_def split: if_splits sum.splits)

lemma object_Inr_intro:
  "typeof v = TObject \<Longrightarrow> v \<noteq> Null \<Longrightarrow> \<not> isArray v \<Longrightarrow> object_loop shape v ctx [] = Inr res \<Longrightarrow>
   object shape msg v ctx = (Inr (Obj res), ctx)"
  by (simp add: object_def createValidator_def)

section \<open>check and the failing branch\<close>

lemma check_call:
  "check fn msg v ctx =
     createValidator (if fn_name fn \<noteq> [] then fn_name fn else ''check'')
        (\<lambda>v ctx args.
           case fn_call fn v ctx of
             (Inl err, ctx') \<Rightarrow> (Inl err, ctx')
           | (Inr r, ctx') \<Rightarrow>
               (if r = Bool True then (Inr v, ctx')
                else (Inl (throw_Error msg ctx' v (if fn_name fn \<noteq> [] then fn_name fn else ''check'')), ctx')))
        () v ctx"
  by (simp add: check_def Let_def)

lemma throw_Error_msg: "m \<noteq> [] \<Longrightarrow> throw_Error (Some m) ctx v name = ErrObj (new_Error m)"
  by (simp add: throw_Error_def)

lemma throw_Error_default:
  "msg = None \<or> msg = Some [] \<Longrightarrow> formatValue v = Inr text \<Longrightarrow>
   throw_Error msg ctx v name
     = ErrObj (new_Error (''('' @ path ctx @ '': '' @ text @ '') '' @ cross_mark @ '' '' @ name))"
  by (auto simp: throw_Error_def default_message_def)

section \<open>Abort flag scoping\<close>

lemma pipe_loop_step_fails:
  "k < length vs \<Longrightarrow>
   \<forall>i\<le>k. \<not> aborted (snd (reduce_validators (take i vs) v ctx)) \<Longrightarrow>
   reduce_validators (take k vs) v ctx = (Inr vk, ck) \<Longrightarrow>
   (vs ! k) vk ck = (Inl t0, c') \<Longrightarrow>
   pipe_loop vs v ctx = (Inl t0, c')"
proof (induction vs arbitrary: k v ctx)
  case Nil
  then show ?case by simp
next
  case (Cons f fs)
  from Cons.prems(2) have na: "\<not> aborted ctx"
    by (metis le0 reduce_validators.simps(1) snd_conv take_0)
  show ?case
  proof (cases k)
    case 0
    with Cons.prems(3,4) have "f v ctx = (Inl t0, c')" by simp
    with na show ?thesis by simp
  next
    case (Suc j)
    from Cons.prems(3) Suc obtain v1 c1 where
      step: "f v ctx = (Inr v1, c1)" and
      rest: "reduce_validators (take j fs) v1 c1 = (Inr vk, ck)"
      by (auto split: prod.splits sum.splits)
    have pre: "\<forall>i\<le>j. \<not> aborted (snd (reduce_validators (take i fs) v1 c1))"
    proof (intro allI impI)
      fix i assume "i \<le> j"
      then have "Suc i \<le> k" using Suc by simp
      with Cons.prems(2)
      have "\<not> aborted (snd (reduce_validators (take (Suc i) (f # fs)) v ctx))" by blast
      then show "\<not> aborted (snd (reduce_validators (take i fs) v1 c1))" using step by simp
    qed
    have "pipe_loop fs v1 c1 = (Inl t0, c')"
      using Cons.IH [of j v1 c1] Cons.prems(1,4) Suc pre rest by simp
    then show ?thesis using na step by simp
  qed
qed

lemma pipe_loop_throw_step:
  "pipe_loop vs v ctx = (Inl t, ctx') \<Longrightarrow>
   \<exists>k<length vs. \<exists>vk ck.
      (\<forall>i\<le>k. \<not> aborted (snd (reduce_validators (take i vs) v ctx)))
      \<and> reduce_validators (take k vs) v ctx = (Inr vk, ck)
      \<and> (vs ! k) vk ck = (Inl t, ctx')"
proof (induction vs arbitrary: v ctx)
  case Nil
  then show ?case by simp
next
  case (Cons f fs)
  from Cons.prems have na: "\<not> aborted ctx" by (auto split: if_splits)
  show ?case
  proof (cases "f v ctx")
    case (Pair r c1)
    show ?thesis
    proof (cases r)
      case (Inl t1)
      with Pair na Cons.prems have "f v ctx = (Inl t, ctx')" by simp
      with na have "(\<forall>i\<le>0. \<not> aborted (snd (reduce_validators (take i (f # fs)) v ctx)))
          \<and> reduce_validators (take 0 (f # fs)) v ctx = (Inr v, ctx)
          \<and> ((f # fs) ! 0) v ctx = (Inl t, ctx')"
        by simp
      then show ?thesis by (metis length_Cons zero_less_Suc)
    next
      case (Inr v1)
      with Pair na Cons.prems have "pipe_loop fs v1 c1 = (Inl t, ctx')" by simp
      from Cons.IH [OF this] obtain j vk ck where j: "j < length fs"
        and pre: "\<forall>i\<le>j. \<not> aborted (snd (reduce_validators (take i fs) v1 c1))"
        and run: "reduce_validators (take j fs) v1 c1 = (Inr vk, ck)"
        and fail: "(fs ! j) vk ck = (Inl t, ctx')"
        by blast
      have pre': "\<forall>i\<le>Suc j. \<not> aborted (snd (reduce_validators (take i (f # fs)) v ctx))"
      proof (intro allI impI)
        fix i assume i: "i \<le> Suc j"
        show "\<not> aborted (snd (reduce_validators (take i (f # fs)) v ctx))"
        proof (cases i)
          case 0
          with na show ?thesis by simp
        next
          case (Suc m)
          with i pre have "\<not> aborted (snd (reduce_validators (take m fs) v1 c1))" by simp
          with Suc Pair Inr show ?thesis by simp
        qed
      qed
      have "reduce_validators (take (Suc j) (f # fs)) v ctx = (Inr vk, ck)"
        using run Pair Inr by simp
      moreover have "((f # fs) ! Suc j) vk ck = (Inl t, ctx')" using fail by simp
      moreover have "Suc j < length (f # fs)" using j by simp
      ultimately show ?thesis using pre' by blast
    qed
  qed
qed

text \<open>
  Claim C1, amended. When \<open>pipe\<close> returns a value, after all its steps or after
  short-circuiting on the abort flag, the abort flag of the context is absent, so a
  pipeline that reuses the context afterwards does not see a flag set inside this pipe.
  When a step that is reached throws, \<open>pipe\<close> rethrows that failure (stamped as
  \<open>createValidator\<close> does) without reaching \<open>delete ctx.__abortPipe\<close>: the context is
  handed back exactly as the throwing step left it. And \<open>pipe\<close> throws in no other way:
  a throw of \<open>pipe\<close> is the throw of the step its run had reached, which was started with
  the flag not set.
\<close>

theorem pipe_clears_flag_on_return:
  "(pipe vs v ctx = (Inr r, ctx') \<longrightarrow> abortPipe ctx' = None)
   \<and> (k < length vs
        \<and> (\<forall>i\<le>k. \<not> aborted (snd (reduce_validators (take i vs) v ctx)))
        \<and> reduce_validators (take k vs) v ctx = (Inr vk, ck)
        \<and> (vs ! k) vk ck = (Inl t0, c') \<longrightarrow>
        pipe vs v ctx
          = (Inl (if named t0 then t0 else ErrObj (stamp ''pipe'' v c' (to_Error t0))), c'))
   \<and> (pipe vs v ctx = (Inl t, ctx') \<longrightarrow>
        (\<exists>j<length vs. \<exists>vj cj tj.
            (\<forall>i\<le>j. \<not> aborted (snd (reduce_validators (take i vs) v ctx)))
            \<and> reduce_validators (take j vs) v ctx = (Inr vj, cj)
            \<and> (vs ! j) vj cj = (Inl tj, ctx')
            \<and> t = (if named tj then tj else ErrObj (stamp ''pipe'' v ctx' (to_Error tj)))))"
proof (intro conjI impI)
  assume "pipe vs v ctx = (Inr r, ctx')"
  then show "abortPipe ctx' = None" by (rule pipe_Inr_clears)
next
  assume h: "k < length vs
        \<and> (\<forall>i\<le>k. \<not> aborted (snd (reduce_validators (take i vs) v ctx)))
        \<and> reduce_validators (take k vs) v ctx = (Inr vk, ck)
        \<and> (vs ! k) vk ck = (Inl t0, c')"
  then have "pipe_loop vs v ctx = (Inl t0, c')"
    using pipe_loop_step_fails [of k vs v ctx vk ck t0 c'] by blast
  then show "pipe vs v ctx
          = (Inl (if named t0 then t0 else ErrObj (stamp ''pipe'' v c' (to_Error t0))), c')"
    unfolding pipe_def by (intro createValidator_Inl) simp
next
  assume "pipe vs v ctx = (Inl t, ctx')"
  from createValidator_Inl_elim [OF this [unfolded pipe_def]]
  obtain tj where h: "(case pipe_loop vs v ctx of
            (Inl err, ctx') \<Rightarrow> (Inl err, ctx')
          | (Inr v', ctx') \<Rightarrow> (Inr v', ctx'\<lparr>abortPipe := None\<rparr>)) = (Inl tj, ctx')"
     and t: "t = (if named tj then tj else ErrObj (stamp ''pipe'' v ctx' (to_Error tj)))"
    by blast
  from h have "pipe_loop vs v ctx = (Inl tj, ctx')"
    by (auto split: prod.splits sum.splits)
  from pipe_loop_throw_step [OF this] t
  show "\<exists>j<length vs. \<exists>vj cj tj.
            (\<forall>i\<le>j. \<not> aborted (snd (reduce_validators (take i vs) v ctx)))
            \<and> reduce_validators (take j vs) v ctx = (Inr vj, cj)
            \<and> (vs ! j) vj cj = (Inl tj, ctx')
            \<and> t = (if named tj then tj else ErrObj (stamp ''pipe'' v ctx' (to_Error tj)))"
    by blast
qed

theorem pipe_clears_flag_on_return_witness:
  "abortPipe (snd (pipe [optional (), string None] Null (makeCtx None KNull Null))) = None
   \<and> fst (pipe [optional (), string None] Null (makeCtx None KNull Null)) = Inr Null
   \<and> pipe [string None] Null (makeCtx None KNull Null)
       = (Inl (ErrObj (stamp ''string'' Null (makeCtx None KNull Null)
                  (new_Error (''($: null) '' @ cross_mark @ '' string'')))),
          makeCtx None KNull Null)
   \<and> (\<exists>j<length [string None]. \<exists>vj cj tj.
        (\<forall>i\<le>j. \<not> aborted (snd (reduce_validators (take i [string None]) Null
                                     (makeCtx None KNull Null))))
        \<and> reduce_validators (take j [string None]) Null (makeCtx None KNull Null) = (Inr vj, cj)
        \<and> ([string None] ! j) vj cj = (Inl tj, makeCtx None KNull Null)
        \<and> ErrObj (stamp ''string'' Null (makeCtx None KNull Null)
                  (new_Error (''($: null) '' @ cross_mark @ '' string'')))
            = (if named tj then tj
               else ErrObj (stamp ''pipe'' Null (makeCtx None KNull Null) (to_Error tj))))"
proof -
  let ?c = "makeCtx None KNull Null"
  let ?t = "ErrObj (stamp ''string'' Null ?c (new_Error (''($: null) '' @ cross_mark @ '' string'')))"
  have a: "pipe [optional (), string None] Null ?c = (Inr Null, ?c)"
    by (simp add: pipe_def createValidator_def optional_def)
  have b: "0 < length [string None]
        \<and> (\<forall>i\<le>0. \<not> aborted (snd (reduce_validators (take i [string None]) Null ?c)))
        \<and> reduce_validators (take 0 [string None]) Null ?c = (Inr Null, ?c)
        \<and> ([string None] ! 0) Null ?c = (Inl ?t, ?c)"
    by (simp add: createValidator_def string_def throw_Error_def default_message_def
          new_Error_def stamp_def)
  have n: "named ?t" by (simp add: stamp_def)
  have 1: "abortPipe (snd (pipe [optional (), string None] Null ?c)) = None"
    using pipe_clears_flag_on_return [where vs = "[optional (), string None]" and v = Null
          and ctx = ?c and r = Null and ctx' = ?c, THEN conjunct1, rule_format, OF a]
    unfolding a by simp
  have 2: "pipe [string None] Null ?c = (Inl ?t, ?c)"
    using pipe_clears_flag_on_return [where vs = "[string None]" and v = Null and ctx = ?c
          and k = 0 and vk = Null and ck = ?c and ?t0.0 = ?t and c' = ?c,
          THEN conjunct2, THEN conjunct1, rule_format, OF b] n
    by simp
  have 3: "fst (pipe [optional (), string None] Null ?c) = Inr Null" unfolding a by simp
  note 4 = pipe_clears_flag_on_return [where vs = "[string None]" and v = Null and ctx = ?c
          and t = ?t and ctx' = ?c, THEN conjunct2, THEN conjunct2, rule_format, OF 2]
  from 1 3 2 4 show ?thesis by (intro conjI)
qed

text \<open>
  The claim as written also covers a failing step. A step that sets the flag and then
  throws, here \<open>transform((v, ctx) => { ctx.__abortPipe = true; throw new Error('boom') })\<close>,
  leaves the flag set when \<open>pipe\<close> gives control back.
\<close>

theorem pipe_clears_flag_counterexample:
  "pipe [transform (\<lambda>v c. (Inl (ErrObj (new_Error ''boom'')), c\<lparr>abortPipe := Some True\<rparr>))]
        Null (makeCtx None KNull Null)
     = (Inl (ErrObj \<lparr>message = ''boom'', expected = Some ''transform'', actual = Some Null,
                     err_path = Some ''$'', err_key = Some KNull, err_parent = Some Null,
                     err_root = Some Null\<rparr>),
        \<lparr>path = ''$'', key = KNull, parent = Null, root = Null, cvalue = Null,
         abortPipe = Some True\<rparr>)"
  by (simp add: pipe_def transform_def createValidator_def new_Error_def)

section \<open>First stamp wins\<close>




section \<open>Fail-fast structural validation\<close>



section \<open>Path determinism\<close>

lemma path_makeCtx_child: "path (makeCtx (Some c) k v) = path c @ render_key k"
  by (cases k) simp_all

lemma path_descend: "path (descend c chain) = path c @ concat (map (render_key \<circ> fst) chain)"
  by (induction c chain rule: descend.induct) (simp_all add: path_makeCtx_child)

text \<open>
  Claim C4. For every chain of keys descended from the root through \<open>makeCtx\<close>, the
  path of the context reached is the root marker \<open>$\<close> followed by each key in order,
  \<open>[k]\<close> for an integer key and \<open>.k\<close> for a name; the values met on the way (and the
  key and value of the root) play no part.
\<close>

theorem path_determinism:
  "path (descend (makeCtx None k0 v0) chain) = ''$'' @ concat (map (render_key \<circ> fst) chain)"
  by (simp add: path_descend)

theorem path_determinism_witness:
  "path (descend (makeCtx None KNull (Obj [(''users'', Arr [Null, Obj [(''age'', Num 3)]])]))
          [(KStr ''users'', Arr [Null, Obj [(''age'', Num 3)]]),
           (KNum 1, Obj [(''age'', Num 3)]), (KStr ''age'', Num 3)])
     = ''$.users[1].age''"
  using path_determinism [of KNull "Obj [(''users'', Arr [Null, Obj [(''age'', Num 3)]])]"
          "[(KStr ''users'', Arr [Null, Obj [(''age'', Num 3)]]),
           (KNum 1, Obj [(''age'', Num 3)]), (KStr ''age'', Num 3)]"]
  by (simp add: string_of_int_def string_of_nat.simps digit_char_def)

section \<open>pipe runs its steps in order\<close>

text \<open>
  Claim C5. \<open>pipe\<close> applies its validators in the order given, each step taking the
  output of the step before, and looks at the abort flag before each step. Stated with
  the plain left-to-right chaining \<open>reduce_validators\<close>: if the first \<open>k\<close> steps, chained,
  succeed, the flag is not set before any of them, and either they are all the steps or
  the flag is set after them, then \<open>pipe\<close> returns the value those \<open>k\<close> steps produced
  and runs no further step (the context is theirs, with the flag deleted).
\<close>

theorem pipe_runs_in_order:
  assumes "k \<le> length vs"
    and "\<forall>i<k. \<not> aborted (snd (reduce_validators (take i vs) v ctx))"
    and "reduce_validators (take k vs) v ctx = (Inr v', ctx')"
    and "k = length vs \<or> aborted ctx'"
  shows "pipe vs v ctx = (Inr v', ctx'\<lparr>abortPipe := None\<rparr>)"
  using assms by (intro pipe_of_loop_Inr pipe_loop_prefix)

theorem pipe_runs_in_order_witness:
  "pipe [optional (), string None] Null (makeCtx None KNull Null) = (Inr Null, makeCtx None KNull Null)
   \<and> pipe [optional (), string None] (Str ''ok'') (makeCtx None KNull (Str ''ok''))
       = (Inr (Str ''ok''), makeCtx None KNull (Str ''ok''))"
proof -
  let ?vs = "[optional (), string None]"
  let ?c = "makeCtx None KNull Null"
  let ?d = "makeCtx None KNull (Str ''ok'')"
  have k1: "(1::nat) \<le> length ?vs" by simp
  have pre1: "\<forall>i<1. \<not> aborted (snd (reduce_validators (take i ?vs) Null ?c))" by simp
  have run1: "reduce_validators (take 1 ?vs) Null ?c = (Inr Null, ?c\<lparr>abortPipe := Some True\<rparr>)"
    by (simp add: optional_call)
  have stop1: "1 = length ?vs \<or> aborted (?c\<lparr>abortPipe := Some True\<rparr>)" by simp
  have k2: "(2::nat) \<le> length ?vs" by simp
  have pre2: "\<forall>i<2. \<not> aborted (snd (reduce_validators (take i ?vs) (Str ''ok'') ?d))"
    by (simp add: less_Suc_eq numeral_2_eq_2 optional_call)
  have run2: "reduce_validators (take 2 ?vs) (Str ''ok'') ?d = (Inr (Str ''ok''), ?d)"
    by (simp add: optional_call string_def createValidator_def)
  have stop2: "2 = length ?vs \<or> aborted ?d" by simp
  from pipe_runs_in_order [OF k1 pre1 run1 stop1] pipe_runs_in_order [OF k2 pre2 run2 stop2]
  show ?thesis by simp
qed

section \<open>The empty pipe\<close>

text \<open>
  Claim C10. At run time \<open>pipe\<close> called with no validator is the identity: for every
  value and context it returns the value it was given, does not fail, and leaves the
  context with the abort flag absent.
\<close>

theorem pipe_empty_identity:
  "pipe [] v ctx = (Inr v, ctx\<lparr>abortPipe := None\<rparr>)"
  by (simp add: pipe_def createValidator_def)

theorem pipe_empty_identity_witness:
  "pipe [] (Str ''ok'') (makeCtx None KNull (Str ''ok''))
     = (Inr (Str ''ok''), makeCtx None KNull (Str ''ok''))
   \<and> abortPipe (snd (pipe [] Null ((makeCtx None KNull Null)\<lparr>abortPipe := Some True\<rparr>))) = None"
  using pipe_empty_identity [of "Str ''ok''" "makeCtx None KNull (Str ''ok'')"]
        pipe_empty_identity [of Null "(makeCtx None KNull Null)\<lparr>abortPipe := Some True\<rparr>"]
  by simp

section \<open>optional\<close>

text \<open>
  Claim C6. The validator made by \<open>optional()\<close> sets the abort flag of the context and
  returns the value unchanged when the value is null or undefined; it returns a present
  value unchanged and leaves the context as it was. So validating \<open>null\<close> against
  \<open>pipe(optional(), string())\<close> gives \<open>{valid: true, result: null}\<close>, and validating
  \<open>"ok"\<close> gives \<open>{valid: true, result: "ok"}\<close>.
\<close>

theorem optional_sets_abort_flag:
  "((v = Null \<or> v = Undefined) \<longrightarrow> optional () v ctx = (Inr v, ctx\<lparr>abortPipe := Some True\<rparr>))
   \<and> (v \<noteq> Null \<and> v \<noteq> Undefined \<longrightarrow> optional () v ctx = (Inr v, ctx))
   \<and> validate (pipe [optional (), string None]) Null None
        = \<lparr>valid = True, result = Null, error = None\<rparr>
   \<and> validate (pipe [optional (), string None]) (Str ''ok'') None
        = \<lparr>valid = True, result = Str ''ok'', error = None\<rparr>"
  by (simp add: optional_call loose_null_iff validate_def pipe_def createValidator_def string_def)

theorem optional_sets_abort_flag_witness:
  "optional () Null (makeCtx None KNull Null)
     = (Inr Null, (makeCtx None KNull Null)\<lparr>abortPipe := Some True\<rparr>)
   \<and> optional () (Num 7) (makeCtx None KNull (Num 7)) = (Inr (Num 7), makeCtx None KNull (Num 7))"
  using optional_sets_abort_flag [of Null "makeCtx None KNull Null"]
        optional_sets_abort_flag [of "Num 7" "makeCtx None KNull (Num 7)"]
  by simp

section \<open>check\<close>

text \<open>
  Claim C7, amended. \<open>check(fn, message?)\<close> returns iff \<open>fn(value, ctx)\<close> returns the
  boolean \<open>true\<close>, and then returns the value unchanged. For any other returned value it
  fails with an error stamped with the predicate's name (\<open>"check"\<close> for an anonymous
  function): the message is the caller's message when that is a non-empty string;
  when no message or the empty string was given and the value can be rendered, it is
  \<open>(path: rendering) X name\<close>, the default text with the current path, the rendering of
  the value and the name.
\<close>

theorem check_gate:
  assumes "name = (if fn_name fn \<noteq> [] then fn_name fn else ''check'')"
  shows "((\<exists>out c. check fn msg v ctx = (Inr out, c)) \<longleftrightarrow> (\<exists>c. fn_call fn v ctx = (Inr (Bool True), c)))
       \<and> (fn_call fn v ctx = (Inr (Bool True), ctx') \<longrightarrow> check fn msg v ctx = (Inr v, ctx'))
       \<and> (fn_call fn v ctx = (Inr r, ctx') \<and> r \<noteq> Bool True \<and> msg = Some m \<and> m \<noteq> [] \<longrightarrow>
            check fn msg v ctx = (Inl (ErrObj (stamp name v ctx' (new_Error m))), ctx'))
       \<and> (fn_call fn v ctx = (Inr r, ctx') \<and> r \<noteq> Bool True \<and> (msg = None \<or> msg = Some [])
            \<and> formatValue v = Inr text \<longrightarrow>
            check fn msg v ctx =
              (Inl (ErrObj (stamp name v ctx'
                 (new_Error (''('' @ path ctx' @ '': '' @ text @ '') '' @ cross_mark @ '' '' @ name)))),
               ctx'))"
proof (intro conjI impI)
  show "(\<exists>out c. check fn msg v ctx = (Inr out, c)) \<longleftrightarrow> (\<exists>c. fn_call fn v ctx = (Inr (Bool True), c))"
    by (auto simp: check_call createValidator_def Let_def split: prod.splits sum.splits if_splits)
next
  assume "fn_call fn v ctx = (Inr (Bool True), ctx')"
  then show "check fn msg v ctx = (Inr v, ctx')"
    by (simp add: check_call createValidator_def)
next
  assume h: "fn_call fn v ctx = (Inr r, ctx') \<and> r \<noteq> Bool True \<and> msg = Some m \<and> m \<noteq> []"
  then show "check fn msg v ctx = (Inl (ErrObj (stamp name v ctx' (new_Error m))), ctx')"
    using assms
    by (simp add: check_call createValidator_Inl throw_Error_msg expected_new_Error)
next
  assume h: "fn_call fn v ctx = (Inr r, ctx') \<and> r \<noteq> Bool True \<and> (msg = None \<or> msg = Some [])
            \<and> formatValue v = Inr text"
  then have "throw_Error msg ctx' v name
     = ErrObj (new_Error (''('' @ path ctx' @ '': '' @ text @ '') '' @ cross_mark @ '' '' @ name))"
    using throw_Error_default by blast
  with h show "check fn msg v ctx =
              (Inl (ErrObj (stamp name v ctx'
                 (new_Error (''('' @ path ctx' @ '': '' @ text @ '') '' @ cross_mark @ '' '' @ name)))),
               ctx')"
    using assms
    by (simp add: check_call createValidator_Inl expected_new_Error)
qed

theorem check_gate_witness:
  "check \<lparr>fn_name = ''isPositive'',
          fn_call = (\<lambda>v c. (Inr (case v of Num n \<Rightarrow> Bool (0 < n) | _ \<Rightarrow> Bool False), c))\<rparr>
        None (Num 1) (makeCtx None KNull (Num 1))
     = (Inr (Num 1), makeCtx None KNull (Num 1))
   \<and> check \<lparr>fn_name = ''isPositive'',
          fn_call = (\<lambda>v c. (Inr (case v of Num n \<Rightarrow> Bool (0 < n) | _ \<Rightarrow> Bool False), c))\<rparr>
        (Some ''must be > 0'') (Num 0) (makeCtx None KNull (Num 0))
     = (Inl (ErrObj (stamp ''isPositive'' (Num 0) (makeCtx None KNull (Num 0))
               (new_Error ''must be > 0''))), makeCtx None KNull (Num 0))
   \<and> check \<lparr>fn_name = [],
          fn_call = (\<lambda>v c. (Inr (case v of Num n \<Rightarrow> Bool (0 < n) | _ \<Rightarrow> Bool False), c))\<rparr>
        None (Num 0) (makeCtx None KNull (Num 0))
     = (Inl (ErrObj (stamp ''check'' (Num 0) (makeCtx None KNull (Num 0))
               (new_Error (''($: 0) '' @ cross_mark @ '' check'')))), makeCtx None KNull (Num 0))"
proof -
  let ?call = "\<lambda>(v::jsval) (c::Ctx). (Inr (case v of Num n \<Rightarrow> Bool (0 < n) | _ \<Rightarrow> Bool False) :: jsval outcome, c)"
  let ?p = "\<lparr>fn_name = ''isPositive'', fn_call = ?call\<rparr>"
  let ?q = "\<lparr>fn_name = [], fn_call = ?call\<rparr>"
  let ?c1 = "makeCtx None KNull (Num 1)"
  let ?c0 = "makeCtx None KNull (Num 0)"
  have np: "''isPositive'' = (if fn_name ?p \<noteq> [] then fn_name ?p else ''check'')" by simp
  have nq: "''check'' = (if fn_name ?q \<noteq> [] then fn_name ?q else ''check'')" by simp
  have a: "fn_call ?p (Num 1) ?c1 = (Inr (Bool True), ?c1)" by simp
  have b: "fn_call ?p (Num 0) ?c0 = (Inr (Bool False), ?c0) \<and> Bool False \<noteq> Bool True
             \<and> Some ''must be > 0'' = Some ''must be > 0'' \<and> ''must be > 0'' \<noteq> []" by simp
  have c: "fn_call ?q (Num 0) ?c0 = (Inr (Bool False), ?c0) \<and> Bool False \<noteq> Bool True
             \<and> ((None :: string option) = None \<or> (None :: string option) = Some [])
             \<and> formatValue (Num 0) = Inr ''0''"
    by (simp add: string_of_int_def string_of_nat.simps digit_char_def)
  from check_gate [OF np, of None "Num 1" ?c1 ?c1] a
  have 1: "check ?p None (Num 1) ?c1 = (Inr (Num 1), ?c1)" by blast
  from check_gate [OF np, of "Some ''must be > 0''" "Num 0" ?c0 ?c0 "Bool False" "''must be > 0''"] b
  have 2: "check ?p (Some ''must be > 0'') (Num 0) ?c0
     = (Inl (ErrObj (stamp ''isPositive'' (Num 0) ?c0 (new_Error ''must be > 0''))), ?c0)" by blast
  from check_gate [OF nq, of None "Num 0" ?c0 ?c0 "Bool False" _ "''0''"] c
  have 3: "check ?q None (Num 0) ?c0
     = (Inl (ErrObj (stamp ''check'' (Num 0) ?c0
               (new_Error (''('' @ path ?c0 @ '': '' @ ''0'' @ '') '' @ cross_mark @ '' '' @ ''check'')))), ?c0)"
    by blast
  from 1 2 3 show ?thesis by simp
qed

text \<open>
  The claim as written fails at two inputs. An empty message is a message given by the
  caller, but \<open>msg || ...\<close> discards it for the default text. And where the value holds a
  BigInt inside an array or a plain object, \<open>formatValue\<close> hands it to \<open>JSON.stringify\<close>,
  which throws: the failure then carries the platform's message, without path or name.
\<close>

theorem check_gate_counterexample:
  "check \<lparr>fn_name = ''isPositive'', fn_call = (\<lambda>v c. (Inr (Bool False), c))\<rparr>
        (Some []) (Num 0) (makeCtx None KNull (Num 0))
     = (Inl (ErrObj \<lparr>message = ''($: 0) '' @ cross_mark @ '' isPositive'',
                     expected = Some ''isPositive'', actual = Some (Num 0),
                     err_path = Some ''$'', err_key = Some KNull, err_parent = Some Null,
                     err_root = Some (Num 0)\<rparr>),
        makeCtx None KNull (Num 0))
   \<and> check \<lparr>fn_name = ''isPositive'', fn_call = (\<lambda>v c. (Inr (Bool False), c))\<rparr>
        None (Arr [BigInt 1]) (makeCtx None KNull (Arr [BigInt 1]))
     = (Inl (ErrObj \<lparr>message = ''Do not know how to serialize a BigInt'',
                     expected = Some ''isPositive'', actual = Some (Arr [BigInt 1]),
                     err_path = Some ''$'', err_key = Some KNull, err_parent = Some Null,
                     err_root = Some (Arr [BigInt 1])\<rparr>),
        makeCtx None KNull (Arr [BigInt 1]))"
  by (simp add: check_def Let_def createValidator_def throw_Error_def default_message_def new_Error_def
        JSON_stringify_def bigint_TypeError_def string_of_int_def string_of_nat.simps digit_char_def)

section \<open>validate\<close>

text \<open>
  On a schema that writes nothing, the entry point by reference is the entry point on
  contents: the same outcome, the store untouched, and on failure the caller's own
  value as result.
\<close>

lemma validate_ref_read_only:
  "validate_ref (read_only f) x rootPath s =
     (\<lparr>rvalid = valid (validate f (contents s x) rootPath),
       rresult = (if valid (validate f (contents s x) rootPath)
                  then Val (result (validate f (contents s x) rootPath)) else x),
       rerror = error (validate f (contents s x) rootPath)\<rparr>, s)"
  by (simp add: validate_ref_def validate_def read_only_def deref_ctx_def
        split: prod.splits sum.splits)

text \<open>
  Claim C8, amended. \<open>validate(schema, value)\<close> calls the schema on the value with the
  root context. When the call returns, the outcome is \<open>{valid: true, result}\<close> with the
  schema's output. When it throws, the outcome is \<open>{valid: false, error, result}\<close> with
  the thrown error and, as result, the very value the caller passed, never the output
  of a step. For an object that is the caller's own object: it shows the contents the
  steps left in it, which are the original contents whenever no step wrote to it.
\<close>

theorem validate_outcome:
  assumes "ctx0 = \<lparr>rpath = (case rootPath of None \<Rightarrow> ''$'' | Some p \<Rightarrow> p), rkey = KNull,
                    rparent = Val Null, rroot = x, rvalue = x, rabortPipe = None\<rparr>"
  shows "(schema x ctx0 s = ((Inr r, ctx'), s') \<longrightarrow>
            validate_ref schema x rootPath s
              = (\<lparr>rvalid = True, rresult = r, rerror = None\<rparr>, s'))
       \<and> (schema x ctx0 s = ((Inl t, ctx'), s') \<longrightarrow>
            validate_ref schema x rootPath s
              = (\<lparr>rvalid = False, rresult = x, rerror = Some t\<rparr>, s'))
       \<and> (schema x ctx0 s = ((Inl t, ctx'), s') \<and> contents s' x = contents s x \<longrightarrow>
            contents (snd (validate_ref schema x rootPath s))
                     (rresult (fst (validate_ref schema x rootPath s)))
              = contents s x)"
  using assms by (simp add: validate_ref_def)

theorem validate_outcome_witness:
  "validate_ref (read_only (number None)) (Val (Num 123)) None (\<lambda>a. Undefined)
     = (\<lparr>rvalid = True, rresult = Val (Num 123), rerror = None\<rparr>, \<lambda>a. Undefined)
   \<and> validate_ref
        (read_only (pipe [transform (\<lambda>v c. (Inr (Str ''changed''), c)), number None]))
        (Ref 0) None ((\<lambda>a. Undefined)(0 := Obj [(''a'', Num 1)]))
     = (\<lparr>rvalid = False, rresult = Ref 0,
         rerror = Some (ErrObj (stamp ''number'' (Str ''changed'')
                    (makeCtx None KNull (Obj [(''a'', Num 1)]))
                    (new_Error (''($: changed) '' @ cross_mark @ '' number''))))\<rparr>,
        (\<lambda>a. Undefined)(0 := Obj [(''a'', Num 1)]))
   \<and> contents
        (snd (validate_ref
           (read_only (pipe [transform (\<lambda>v c. (Inr (Str ''changed''), c)), number None]))
           (Ref 0) None ((\<lambda>a. Undefined)(0 := Obj [(''a'', Num 1)]))))
        (rresult (fst (validate_ref
           (read_only (pipe [transform (\<lambda>v c. (Inr (Str ''changed''), c)), number None]))
           (Ref 0) None ((\<lambda>a. Undefined)(0 := Obj [(''a'', Num 1)])))))
     = Obj [(''a'', Num 1)]"
proof -
  let ?c = "\<lambda>x. \<lparr>rpath = (case (None :: string option) of None \<Rightarrow> ''$'' | Some p \<Rightarrow> p),
                  rkey = KNull, rparent = Val Null, rroot = x, rvalue = x, rabortPipe = None\<rparr>"
  let ?s0 = "(\<lambda>a. Undefined) :: store"
  let ?s1 = "?s0(0 := Obj [(''a'', Num 1)])"
  let ?f = "pipe [transform (\<lambda>v c. (Inr (Str ''changed''), c)), number None]"
  let ?t = "ErrObj (stamp ''number'' (Str ''changed'') (makeCtx None KNull (Obj [(''a'', Num 1)]))
                  (new_Error (''($: changed) '' @ cross_mark @ '' number'')))"
  have a: "read_only (number None) (Val (Num 123)) (?c (Val (Num 123))) ?s0
             = ((Inr (Val (Num 123)), ?c (Val (Num 123))), ?s0)"
    by (simp add: read_only_def deref_ctx_def ref_ctx_def number_def createValidator_def)
  have b: "read_only ?f (Ref 0) (?c (Ref 0)) ?s1
             = ((Inl ?t, ref_ctx (makeCtx None KNull (Obj [(''a'', Num 1)]))), ?s1)"
    by (simp add: read_only_def deref_ctx_def pipe_def transform_def number_def
          createValidator_def throw_Error_def default_message_def new_Error_def stamp_def)
  have b': "read_only ?f (Ref 0) (?c (Ref 0)) ?s1
             = ((Inl ?t, ref_ctx (makeCtx None KNull (Obj [(''a'', Num 1)]))), ?s1)
            \<and> contents ?s1 (Ref 0) = contents ?s1 (Ref 0)"
    using b by simp
  note w = validate_outcome [OF refl, where schema = "read_only (number None)"
      and x = "Val (Num 123)" and rootPath = None and s = ?s0 and r = "Val (Num 123)"
      and ctx' = "?c (Val (Num 123))" and s' = ?s0, THEN conjunct1, rule_format, OF a]
    validate_outcome [OF refl, where schema = "read_only ?f"
      and x = "Ref 0" and rootPath = None and s = ?s1 and t = ?t
      and ctx' = "ref_ctx (makeCtx None KNull (Obj [(''a'', Num 1)]))" and s' = ?s1,
      THEN conjunct2, THEN conjunct1, rule_format, OF b]
    validate_outcome [OF refl, where schema = "read_only ?f"
      and x = "Ref 0" and rootPath = None and s = ?s1 and t = ?t
      and ctx' = "ref_ctx (makeCtx None KNull (Obj [(''a'', Num 1)]))" and s' = ?s1,
      THEN conjunct2, THEN conjunct2, rule_format, OF b']
  have c: "contents ?s1 (Ref 0) = Obj [(''a'', Num 1)]" by simp
  show ?thesis
    using w(1) w(2) w(3) [unfolded c] by (intro conjI)
qed

text \<open>
  The claim as written promises the unmodified original. The schema
  \<open>(v, ctx) => { v.a = 2; throw 'boom' }\<close> writes to the caller's object before it
  fails: the result is that object, and it now reads \<open>{a: 2}\<close> where the caller passed
  \<open>{a: 1}\<close>.
\<close>

theorem validate_outcome_counterexample:
  "validate_ref
     (\<lambda>x c s. case x of
          Ref a \<Rightarrow> ((Inl ''boom'', c), s(a := Obj [(''a'', Num 2)]))
        | Val v \<Rightarrow> ((Inl ''boom'', c), s))
     (Ref 0) None ((\<lambda>a. Undefined)(0 := Obj [(''a'', Num 1)]))
   = (\<lparr>rvalid = False, rresult = Ref 0, rerror = Some ''boom''\<rparr>,
      (\<lambda>a. Undefined)(0 := Obj [(''a'', Num 2)]))
   \<and> contents ((\<lambda>a. Undefined)(0 := Obj [(''a'', Num 1)])) (Ref 0) = Obj [(''a'', Num 1)]
   \<and> contents ((\<lambda>a. Undefined)(0 := Obj [(''a'', Num 2)])) (Ref 0) = Obj [(''a'', Num 2)]"
  by (simp add: validate_ref_def)

section \<open>object keeps the declared keys only\<close>

text \<open>
  Claim C9, amended. For a shape that does not declare the key \<open>__proto__\<close>: when
  \<open>object(shape)\<close> returns, its result is a keyed structure with exactly the keys of the
  shape, in the shape's order, each bound to the output of its member validator called
  on \<open>value[key]\<close> with the child context of that key. A key of the input that the shape
  does not declare is not in the result, and it is never the key or the value a member
  validator is called with: any keyed structure that agrees with the input on the
  declared keys gives the same result in the same context. The context is part of what
  a member validator is called with: the child context carries the parent value and the
  root held by the context it descends from, and through them a member validator can
  read the whole input, undeclared keys included.
\<close>

theorem object_declared_keys_only:
  assumes "object shape msg v ctx = (Inr r, ctx')"
    and "distinct (map fst shape)"
    and "''__proto__'' \<notin> fst ` set shape"
  shows "(\<exists>outs. r = Obj (zip (map fst shape) outs)
            \<and> list_all2 (\<lambda>kf out. fst (member_call v ctx kf) = Inr out) shape outs)
       \<and> (\<forall>w. typeof w = TObject \<and> w \<noteq> Null \<and> \<not> isArray w
              \<and> (\<forall>k\<in>fst ` set shape. js_get w k = js_get v k)
            \<longrightarrow> object shape msg w ctx = (Inr r, ctx'))"
proof -
  from object_Inr_elim [OF assms(1)] obtain res where
    c: "ctx' = ctx" and loop: "object_loop shape v ctx [] = Inr res" and r: "r = Obj res"
    by blast
  from object_loop_result [OF loop assms(2) _ assms(3)] r have first:
    "\<exists>outs. r = Obj (zip (map fst shape) outs)
            \<and> list_all2 (\<lambda>kf out. fst (member_call v ctx kf) = Inr out) shape outs"
    by simp
  have second: "\<forall>w. typeof w = TObject \<and> w \<noteq> Null \<and> \<not> isArray w
              \<and> (\<forall>k\<in>fst ` set shape. js_get w k = js_get v k)
            \<longrightarrow> object shape msg w ctx = (Inr r, ctx')"
  proof (intro allI impI)
    fix w
    assume h: "typeof w = TObject \<and> w \<noteq> Null \<and> \<not> isArray w
              \<and> (\<forall>k\<in>fst ` set shape. js_get w k = js_get v k)"
    then have "object_loop shape w ctx [] = Inr res"
      using object_loop_cong [of shape w v ctx "[]"] loop by simp
    with h show "object shape msg w ctx = (Inr r, ctx')"
      using object_Inr_intro [of w shape ctx res msg] r c by simp
  qed
  from first second show ?thesis by blast
qed

theorem object_declared_keys_only_witness:
  "object [(''a'', number None)] None (Obj [(''a'', Num 1), (''extra'', Str ''zzz'')])
      (makeCtx None KNull Null)
     = (Inr (Obj [(''a'', Num 1)]), makeCtx None KNull Null)
   \<and> object [(''a'', number None)] None (Obj [(''other'', Null), (''a'', Num 1)])
      (makeCtx None KNull Null)
     = (Inr (Obj [(''a'', Num 1)]), makeCtx None KNull Null)"
proof -
  let ?shape = "[(''a'', number None)]"
  let ?v = "Obj [(''a'', Num 1), (''extra'', Str ''zzz'')]"
  let ?w = "Obj [(''other'', Null), (''a'', Num 1)]"
  let ?c = "makeCtx None KNull Null"
  have a: "object ?shape None ?v ?c = (Inr (Obj [(''a'', Num 1)]), ?c)"
    by (simp add: object_def number_def createValidator_def obj_set.simps)
  have d: "distinct (map fst ?shape)" by simp
  have p: "''__proto__'' \<notin> fst ` set ?shape" by simp
  have w: "typeof ?w = TObject \<and> ?w \<noteq> Null \<and> \<not> isArray ?w
             \<and> (\<forall>k\<in>fst ` set ?shape. js_get ?w k = js_get ?v k)"
    by simp
  from object_declared_keys_only [OF a d p] w
  have "object ?shape None ?w ?c = (Inr (Obj [(''a'', Num 1)]), ?c)" by blast
  with a show ?thesis by simp
qed

text \<open>
  The claim as written fails in two ways. A shape that declares the key \<open>__proto__\<close>
  (here with the input \<open>JSON.parse('{"__proto__": 1}')\<close>, whose own property is the number)
  gets a result without that key: the assignment reaches the inherited setter and
  creates no property. And an undeclared key does reach a member validator, inside the
  parent value of its context: with the member \<open>check((v, ctx) => ctx.parent.extra === 1)\<close>
  two inputs that differ in the undeclared key \<open>extra\<close> alone are one valid and one not.
\<close>

theorem object_declared_keys_only_counterexample:
  "object [(''__proto__'', number None)] None (Obj [(''__proto__'', Num 1)])
      (makeCtx None KNull (Obj [(''__proto__'', Num 1)]))
     = (Inr (Obj []), makeCtx None KNull (Obj [(''__proto__'', Num 1)]))
   \<and> validate
        (object [(''a'', check \<lparr>fn_name = ''sees'',
                    fn_call = (\<lambda>v c. (Inr (Bool (js_get (parent c) ''extra'' = Num 1)), c))\<rparr>
                  None)] None)
        (Obj [(''a'', Num 0), (''extra'', Num 1)]) None
     = \<lparr>valid = True, result = Obj [(''a'', Num 0)], error = None\<rparr>
   \<and> valid (validate
        (object [(''a'', check \<lparr>fn_name = ''sees'',
                    fn_call = (\<lambda>v c. (Inr (Bool (js_get (parent c) ''extra'' = Num 1)), c))\<rparr>
                  None)] None)
        (Obj [(''a'', Num 0), (''extra'', Num 2)]) None) = False"
  by (simp add: validate_def object_def check_def Let_def number_def createValidator_def
        obj_set.simps throw_Error_def default_message_def new_Error_def
        string_of_int_def string_of_nat.simps digit_char_def)

end
